theory Spec2Isabelle
  imports Complex_Main
begin

section \<open>Errors\<close>

text \<open>
  Every exception the two source files raise, and the exceptions of the library calls
  they make that matter below, is a value of this type. The messages of the source are
  kept in the constructor names.
\<close>

datatype error =
    EpsOrderRuntimeError
      \<comment> \<open>EGreedyWrapper: RuntimeError "eps should decrease over time or be constant"\<close>
  | EpsOrderValueError
      \<comment> \<open>OrnsteinUhlenbeckProcessWrapper: ValueError "eps should decrease over time ..."\<close>
  | DuplicateOutKeys
      \<comment> \<open>RuntimeError "Got multiple identical output keys"\<close>
  | AnnealingValueError
      \<comment> \<open>ValueError of OrnsteinUhlenbeckProcessWrapper.step\<close>
  | ZeroDivisionError
  | IndexError
  | KeyError string
  | AttributeError string
  | ShapeMismatch
      \<comment> \<open>RuntimeError of an elementwise operation on shapes that do not broadcast\<close>
  | NonFinite
      \<comment> \<open>not an exception: the float result is an infinity, which a real cannot hold\<close>
  | InvalidObservationShape
      \<comment> \<open>RuntimeError "Invalid observation shape, got: ..."\<close>
  | ExpectedThreeDims
      \<comment> \<open>RuntimeError "observation is expected to have 3 dimensions, ..."\<close>
  | ExpectedThreeChannels
      \<comment> \<open>RuntimeError "observation_trsf is expected to have 3 dimensions, ..."\<close>
  | StackEmptyList
      \<comment> \<open>RuntimeError of torch.stack on an empty list\<close>
  | StackShapeMismatch
      \<comment> \<open>RuntimeError of torch.stack on tensors of unequal shapes\<close>
  | MoviepyNotFound
      \<comment> \<open>Exception "moviepy not found, VideoRecorder cannot be created"\<close>

section \<open>Epsilon decay of the exploration wrappers\<close>

text \<open>
  Both wrappers of \<^verbatim>\<open>exploration.py\<close> keep the buffers \<^verbatim>\<open>eps_init\<close>,
  \<^verbatim>\<open>eps_end\<close>, \<^verbatim>\<open>eps\<close> and the attribute \<^verbatim>\<open>annealing_num_steps\<close>.
  The floating-point scalars of the source are modelled as real numbers: the theorems
  below are about exact arithmetic, not about rounding. \<^verbatim>\<open>annealing_num_steps\<close> and
  \<^verbatim>\<open>frames\<close> are Python integers.
\<close>

record EGreedyWrapper =
  eps_init :: real
  eps_end :: real
  annealing_num_steps :: int
  eps :: real

definition EGreedyWrapper_init :: "real \<Rightarrow> real \<Rightarrow> int \<Rightarrow> error + EGreedyWrapper" where
  "EGreedyWrapper_init e_init e_end n =
     (if e_end > e_init then Inl EpsOrderRuntimeError
      else Inr \<lparr>eps_init = e_init, eps_end = e_end, annealing_num_steps = n, eps = e_init\<rparr>)"




subsection \<open>The Ornstein-Uhlenbeck process object\<close>

record ou_process =
  ou_mu :: real
  ou_sigma :: real
  ou_m :: real
  ou_c :: real
  ou_sigma_min :: real
  ou_theta :: real
  ou_dt :: real
  ou_x0 :: real
  ou_key :: string

text \<open>
  \<^verbatim>\<open>_OrnsteinUhlenbeckProcess.__init__\<close>. \<^verbatim>\<open>sigma_min\<close> and \<^verbatim>\<open>x0\<close> are optional;
  \<^verbatim>\<open>x0\<close> is modelled as a scalar. The quotient is a quotient of Python floats, which
  raises for a zero divisor.
\<close>

definition OrnsteinUhlenbeckProcess_init ::
  "real \<Rightarrow> real \<Rightarrow> real \<Rightarrow> real \<Rightarrow> real option \<Rightarrow> real option \<Rightarrow> int \<Rightarrow> string
     \<Rightarrow> error + ou_process" where
  "OrnsteinUhlenbeckProcess_init theta mu sigma dt x0 sigma_min n_steps_annealing key =
     (case sigma_min of
        Some smin \<Rightarrow>
          (if n_steps_annealing = 0 then Inl ZeroDivisionError
           else Inr \<lparr>ou_mu = mu, ou_sigma = sigma,
                     ou_m = - (sigma - smin) / real_of_int n_steps_annealing,
                     ou_c = sigma, ou_sigma_min = smin,
                     ou_theta = theta, ou_dt = dt,
                     ou_x0 = (case x0 of Some x \<Rightarrow> x | None \<Rightarrow> 0), ou_key = key\<rparr>)
      | None \<Rightarrow>
          Inr \<lparr>ou_mu = mu, ou_sigma = sigma, ou_m = 0, ou_c = sigma, ou_sigma_min = sigma,
               ou_theta = theta, ou_dt = dt,
               ou_x0 = (case x0 of Some x \<Rightarrow> x | None \<Rightarrow> 0), ou_key = key\<rparr>)"

definition noise_key :: string where
  "noise_key = ''_ou_prev_noise''"

definition steps_key :: string where
  "steps_key = ''_ou_steps''"

definition ou_out_keys :: "string list" where
  "ou_out_keys = [noise_key, steps_key]"

text \<open>\<^verbatim>\<open>current_sigma\<close> on one entry of the step-count tensor.\<close>

definition current_sigma :: "ou_process \<Rightarrow> real \<Rightarrow> real" where
  "current_sigma p n_steps = max (ou_sigma_min p) (ou_m p * n_steps + ou_c p)"

subsection \<open>The Ornstein-Uhlenbeck wrapper\<close>

record OrnsteinUhlenbeckProcessWrapper = EGreedyWrapper +
  ou :: ou_process
  out_keys :: "string list"
  safe :: bool

text \<open>
  \<^verbatim>\<open>OrnsteinUhlenbeckProcessWrapper.__init__\<close>, in the order of the source: the process
  object first, then the epsilon check, then the check of the output keys. The first
  argument is \<^verbatim>\<open>policy.out_keys\<close>. The composite spec and the forward hook belong to
  modules outside the two files and are not modelled.
\<close>

definition OrnsteinUhlenbeckProcessWrapper_init ::
  "string list \<Rightarrow> real \<Rightarrow> real \<Rightarrow> int \<Rightarrow> real \<Rightarrow> real \<Rightarrow> real \<Rightarrow> real \<Rightarrow> real option
     \<Rightarrow> real option \<Rightarrow> int \<Rightarrow> string \<Rightarrow> bool \<Rightarrow> error + OrnsteinUhlenbeckProcessWrapper" where
  "OrnsteinUhlenbeckProcessWrapper_init policy_out_keys e_init e_end n theta mu sigma dt x0
       sigma_min n_steps_annealing key sf =
     (case OrnsteinUhlenbeckProcess_init theta mu sigma dt x0 sigma_min n_steps_annealing key of
        Inl e \<Rightarrow> Inl e
      | Inr p \<Rightarrow>
          if e_end > e_init then Inl EpsOrderValueError
          else if \<not> distinct (policy_out_keys @ ou_out_keys) then Inl DuplicateOutKeys
          else Inr \<lparr>eps_init = e_init, eps_end = e_end, annealing_num_steps = n, eps = e_init,
                    ou = p, out_keys = policy_out_keys @ ou_out_keys, safe = sf\<rparr>)"





section \<open>Records and tensors of the exploration wrappers\<close>

text \<open>
  The tensors the wrappers read and write carry one row per batch element: a tensor is
  the list of its rows, a row the list of its components. Entries are real numbers
  (the step counter holds integral values).
\<close>

type_synonym tensor = "real list list"

definition bind :: "error + 'a \<Rightarrow> ('a \<Rightarrow> error + 'b) \<Rightarrow> error + 'b" where
  "bind m f = (case m of Inl e \<Rightarrow> Inl e | Inr x \<Rightarrow> f x)"

fun collect :: "(error + 'a) list \<Rightarrow> error + 'a list" where
  "collect [] = Inr []"
| "collect (x # xs) = bind x (\<lambda>v. bind (collect xs) (\<lambda>vs. Inr (v # vs)))"

text \<open>
  Elementwise operations of the tensor library broadcast: along each dimension the two
  sizes are equal or one of them is 1; anything else raises.
\<close>

definition bcast :: "('a \<Rightarrow> 'b \<Rightarrow> error + 'c) \<Rightarrow> 'a list \<Rightarrow> 'b list \<Rightarrow> error + 'c list" where
  "bcast f xs ys =
     (if length xs = length ys then collect (map2 f xs ys)
      else if length xs = 1 then collect (map (f (hd xs)) ys)
      else if length ys = 1 then collect (map (\<lambda>x. f x (hd ys)) xs)
      else Inl ShapeMismatch)"

definition tensor_op :: "(real \<Rightarrow> real \<Rightarrow> real) \<Rightarrow> tensor \<Rightarrow> tensor \<Rightarrow> error + tensor" where
  "tensor_op f a b = bcast (bcast (\<lambda>x y. Inr (f x y))) a b"

definition tensor_map :: "(real \<Rightarrow> real) \<Rightarrow> tensor \<Rightarrow> tensor" where
  "tensor_map f a = map (map f) a"

text \<open>
  A tensor of the shape of \<open>a\<close> whose entry at row \<open>i\<close>, component \<open>j\<close> is \<open>g i j\<close>:
  the result of \<^verbatim>\<open>torch.randn_like(a)\<close> when \<open>g\<close> is the table of the draws.
\<close>

definition tensor_like :: "(nat \<Rightarrow> nat \<Rightarrow> real) \<Rightarrow> tensor \<Rightarrow> tensor" where
  "tensor_like g a = map (\<lambda>(i, r). map (g i) [0..<length r]) (enumerate 0 a)"

text \<open>
  Modelled from the spec: the structured record (\<^verbatim>\<open>_TensorDict\<close>, defined outside the
  two files) is a mapping from string keys to tensors that share the leading batch
  dimension, with get and set; reading a missing key raises, and the in-place
  \<^verbatim>\<open>set_\<close> writes to a key that is already there.
\<close>

record tensordict =
  batch_size :: nat
  entries :: "string \<rightharpoonup> tensor"

definition td_get :: "tensordict \<Rightarrow> string \<Rightarrow> error + tensor" where
  "td_get d k = (case entries d k of None \<Rightarrow> Inl (KeyError k) | Some t \<Rightarrow> Inr t)"

definition td_set :: "tensordict \<Rightarrow> string \<Rightarrow> tensor \<Rightarrow> tensordict" where
  "td_set d k t = d\<lparr>entries := (entries d)(k \<mapsto> t)\<rparr>"

definition td_set_inplace :: "tensordict \<Rightarrow> string \<Rightarrow> tensor \<Rightarrow> error + tensordict" where
  "td_set_inplace d k t =
     (case entries d k of None \<Rightarrow> Inl (KeyError k) | Some _ \<Rightarrow> Inr (td_set d k t))"

subsection \<open>The Ornstein-Uhlenbeck sampling step\<close>

definition make_noise_pair :: "ou_process \<Rightarrow> tensordict \<Rightarrow> error + tensordict" where
  "make_noise_pair p d =
     bind (td_get d (ou_key p)) (\<lambda>a.
       Inr (td_set (td_set d noise_key (tensor_map (\<lambda>_. 0) a))
              steps_key (replicate (batch_size d) [0])))"

text \<open>
  \<^verbatim>\<open>add_sample\<close>. The second argument is the table of the standard-normal draws of
  this call. The action is read after the noise has been written, as in the source.
  \<^verbatim>\<open>np.sqrt(dt)\<close> is NaN for a negative \<^verbatim>\<open>dt\<close>, which a real number cannot hold: what
  is proved below about the values of the noise is for \<open>dt \<ge> 0\<close>.
\<close>

definition add_sample ::
  "ou_process \<Rightarrow> (nat \<Rightarrow> nat \<Rightarrow> real) \<Rightarrow> tensordict \<Rightarrow> real \<Rightarrow> error + tensordict" where
  "add_sample p W d0 e =
     bind (if entries d0 noise_key = None then make_noise_pair p d0 else Inr d0) (\<lambda>d.
     bind (td_get d noise_key) (\<lambda>stored.
     let prev_noise = tensor_map (\<lambda>x. x + ou_x0 p) stored in
     bind (td_get d steps_key) (\<lambda>n_steps.
     bind (tensor_op (+) prev_noise
            (tensor_map (\<lambda>x. ou_theta p * (ou_mu p - x) * ou_dt p) prev_noise)) (\<lambda>drift.
     bind (tensor_op (*) (tensor_map (\<lambda>n. current_sigma p n * sqrt (ou_dt p)) n_steps)
            (tensor_like W prev_noise)) (\<lambda>diffusion.
     bind (tensor_op (+) drift diffusion) (\<lambda>noise.
     bind (td_set_inplace d noise_key (tensor_map (\<lambda>x. x - ou_x0 p) noise)) (\<lambda>d1.
     bind (td_get d1 (ou_key p)) (\<lambda>action.
     bind (tensor_op (+) action (tensor_map (\<lambda>x. e * x) noise)) (\<lambda>action'.
     bind (td_set_inplace d1 (ou_key p) action') (\<lambda>d2.
     td_set_inplace d2 steps_key (tensor_map (\<lambda>n. n + 1) n_steps)))))))))))"

subsection \<open>The epsilon-greedy forward pass\<close>

text \<open>
  Modelled from the spec: \<^verbatim>\<open>expand_as_right\<close> (defined outside the two files) gives
  the per-batch-element condition the shape of the action, one value per row.
\<close>

definition expand_as_right :: "real list \<Rightarrow> tensor \<Rightarrow> error + tensor" where
  "expand_as_right cond out =
     (if length cond = length out then Inr (map2 (\<lambda>c r. map (\<lambda>_. c) r) cond out)
      else Inl ShapeMismatch)"

text \<open>
  \<^verbatim>\<open>EGreedyWrapper.forward\<close>. The wrapped policy \<open>policy\<close> and its output keys are
  parameters, as are the value \<open>mode\<close> of \<^verbatim>\<open>exploration_mode()\<close>, the table \<open>U\<close> of the
  uniform draws of \<^verbatim>\<open>torch.rand\<close> (one per batch element) and the table \<open>R\<close> of the
  sample of \<^verbatim>\<open>spec.rand\<close>, which has the shape of the policy's action.
\<close>

definition EGreedyWrapper_forward ::
  "(tensordict \<Rightarrow> tensordict) \<Rightarrow> string list \<Rightarrow> string option \<Rightarrow> (nat \<Rightarrow> real)
     \<Rightarrow> (nat \<Rightarrow> nat \<Rightarrow> real) \<Rightarrow> EGreedyWrapper \<Rightarrow> tensordict \<Rightarrow> error + tensordict" where
  "EGreedyWrapper_forward policy policy_out_keys mode U R w d0 =
     (let d = policy d0 in
      if mode = Some ''random'' \<or> mode = None then
        (case policy_out_keys of
           [] \<Rightarrow> Inl IndexError
         | k # _ \<Rightarrow>
             bind (td_get d k) (\<lambda>out.
             bind (expand_as_right
                    (map (\<lambda>i. if U i < eps w then 1 else 0) [0..<batch_size d]) out) (\<lambda>cond.
             bind (tensor_op (*) cond (tensor_like R out)) (\<lambda>a.
             bind (tensor_op (*) (tensor_map (\<lambda>c. 1 - c) cond) out) (\<lambda>b.
             bind (tensor_op (+) a b) (\<lambda>out'.
             Inr (td_set d k out')))))))
      else Inr d)"

section \<open>Recorders\<close>

text \<open>
  An observation tensor: its shape, its element type, and its values in row-major
  order (as many as the product of the shape).
\<close>

datatype dtype = Uint8 | OtherDtype

record obs_tensor =
  shape :: "nat list"
  dtype :: dtype
  vals :: "real list"

definition ndimension :: "obs_tensor \<Rightarrow> nat" where
  "ndimension t = length (shape t)"

text \<open>
  \<^verbatim>\<open>unsqueeze(dim)\<close>: a negative \<^verbatim>\<open>dim\<close> counts from the end of the new shape. Both
  calls of the source are in range.
\<close>

definition unsqueeze :: "int \<Rightarrow> obs_tensor \<Rightarrow> obs_tensor" where
  "unsqueeze dm t =
     (let p = nat (if dm < 0 then dm + int (ndimension t) + 1 else dm)
      in t\<lparr>shape := take p (shape t) @ [1] @ drop p (shape t)\<rparr>)"

text \<open>
  \<^verbatim>\<open>permute(2, 0, 1)\<close> of a tensor of three dimensions: entry \<open>(c, h, w)\<close> of the
  result is entry \<open>(h, w, c)\<close> of the argument. The source calls it on such tensors
  only.
\<close>

definition permute_2_0_1 :: "obs_tensor \<Rightarrow> obs_tensor" where
  "permute_2_0_1 t =
     (case shape t of
        [H, W, C] \<Rightarrow>
          t\<lparr>shape := [C, H, W],
            vals := concat (map (\<lambda>c. concat (map (\<lambda>h. map (\<lambda>w. vals t ! ((h * W + w) * C + c))
                      [0..<W]) [0..<H])) [0..<C])\<rparr>
      | _ \<Rightarrow> t)"

text \<open>
  \<^verbatim>\<open>.to(torch.uint8)\<close>; the conversion of one value is the parameter \<open>u8\<close>.
\<close>

definition to_uint8 :: "(real \<Rightarrow> real) \<Rightarrow> obs_tensor \<Rightarrow> obs_tensor" where
  "to_uint8 u8 t = t\<lparr>dtype := Uint8, vals := map u8 (vals t)\<rparr>"


subsection \<open>VideoRecorder\<close>

text \<open>
  The writer is the list of the \<^verbatim>\<open>add_video\<close> calls it has received (tag, clip,
  global step); the call is assumed to return.
\<close>

record VideoRecorder =
  iter :: int
  skip :: int
  writer :: "(string \<times> obs_tensor \<times> int) list"
  tag :: string
  count :: int
  obs :: "obs_tensor list"

definition VideoRecorder_init ::
  "(string \<times> obs_tensor \<times> int) list \<Rightarrow> string \<Rightarrow> int \<Rightarrow> bool \<Rightarrow> error + VideoRecorder" where
  "VideoRecorder_init wr tg sk moviepy_found =
     (if moviepy_found
      then Inr \<lparr>iter = 0, skip = sk, writer = wr, tag = tg, count = 0, obs = []\<rparr>
      else Inl MoviepyNotFound)"

text \<open>
  \<^verbatim>\<open>VideoRecorder._apply\<close>. The recorder is returned with the result, since the
  counter is incremented before the later checks can raise. \<^verbatim>\<open>shape[-1]\<close> of a tensor
  without dimensions raises an IndexError.
\<close>

definition VideoRecorder_apply ::
  "(real \<Rightarrow> real) \<Rightarrow> VideoRecorder \<Rightarrow> obs_tensor \<Rightarrow> (error + obs_tensor) \<times> VideoRecorder" where
  "VideoRecorder_apply u8 r observation =
     (if shape observation = [] then (Inl IndexError, r)
      else if \<not> (last (shape observation) = 3 \<or> ndimension observation = 2)
      then (Inl InvalidObservationShape, r)
      else
        let r1 = r\<lparr>count := count r + 1\<rparr> in
        if skip r1 = 0 then (Inl ZeroDivisionError, r1)
        else if count r1 mod skip r1 = 0 then
          (if ndimension observation = 2 then
             (Inr observation,
              r1\<lparr>obs := obs r1 @ [to_uint8 u8 (unsqueeze (- 3) observation)]\<rparr>)
           else if ndimension observation \<noteq> 3 then (Inl ExpectedThreeDims, r1)
           else if last (shape observation) \<noteq> 3 then (Inl ExpectedThreeChannels, r1)
           else
             (Inr observation,
              r1\<lparr>obs := obs r1 @ [to_uint8 u8 (permute_2_0_1 observation)]\<rparr>))
        else (Inr observation, r1))"




subsection \<open>TensorDictRecorder\<close>







section \<open>Properties of the epsilon decay\<close>










text \<open>
  The constructors establish \<open>eps_end \<le> eps \<le> eps_init\<close>, with \<open>eps = eps_init\<close>; the
  theorem below is stated for every state with that invariant, which \<^verbatim>\<open>step\<close> preserves.
\<close>

lemma EGreedyWrapper_init_invariant:
  assumes "EGreedyWrapper_init e_init e_end n = Inr w"
  shows "eps w = e_init" "eps_init w = e_init" "eps_end w = e_end" "annealing_num_steps w = n"
    "eps_end w \<le> eps w" "eps w \<le> eps_init w"
  using assms by (auto simp: EGreedyWrapper_init_def split: if_splits)

lemma OrnsteinUhlenbeckProcessWrapper_init_invariant:
  assumes "OrnsteinUhlenbeckProcessWrapper_init ks e_init e_end n theta mu sigma dt x0 smin nsa key sf
             = Inr w"
  shows "eps w = e_init" "eps_init w = e_init" "eps_end w = e_end" "annealing_num_steps w = n"
    "eps_end w \<le> eps w" "eps w \<le> eps_init w"
  using assms
  by (auto simp: OrnsteinUhlenbeckProcessWrapper_init_def split: if_splits sum.splits)






section \<open>Properties of the constructors\<close>



section \<open>Properties of the sigma schedule\<close>






section \<open>Properties of the video recorder\<close>

lemma shape_to_uint8 [simp]: "shape (to_uint8 u8 t) = shape t"
  by (simp add: to_uint8_def)



lemma shape_permute_2_0_1:
  "shape t = [H, W, C] \<Longrightarrow> shape (permute_2_0_1 t) = [C, H, W]"
  by (simp add: permute_2_0_1_def)


text \<open>
  Claim C9. A frame that is neither 2-dimensional nor has a last dimension of size 3
  makes \<^verbatim>\<open>_apply\<close> raise on that call, whatever the counter and \<^verbatim>\<open>skip\<close> are, and
  before the counter moves: the RuntimeError of the shape check (for a tensor without
  dimensions, the IndexError of \<^verbatim>\<open>shape[-1]\<close>). A frame that is 2-dimensional or has a
  last dimension of size 3 never raises that error; and a frame of two dimensions, or
  of three with three channels last, raises nothing at all when \<^verbatim>\<open>skip\<close> is not zero.
\<close>

theorem video_shape_validation:
  "(ndimension x \<noteq> 2 \<and> \<not> (shape x \<noteq> [] \<and> last (shape x) = 3) \<longrightarrow>
      VideoRecorder_apply u8 r x
        = (Inl (if shape x = [] then IndexError else InvalidObservationShape), r))
   \<and> (ndimension x = 2 \<or> (shape x \<noteq> [] \<and> last (shape x) = 3) \<longrightarrow>
      fst (VideoRecorder_apply u8 r x) \<noteq> Inl InvalidObservationShape
      \<and> fst (VideoRecorder_apply u8 r x) \<noteq> Inl IndexError)
   \<and> ((ndimension x = 2 \<or> (ndimension x = 3 \<and> last (shape x) = 3)) \<and> skip r \<noteq> 0 \<longrightarrow>
      fst (VideoRecorder_apply u8 r x) = Inr x)"
  by (auto simp: VideoRecorder_apply_def ndimension_def Let_def)

text \<open>
  Claim C10. Whenever \<^verbatim>\<open>_apply\<close> returns, it returns the observation it was given;
  the buffer is unchanged or has gained the converted copy (unsqueezed or permuted to
  channel-first, then cast to 8 bits).
\<close>

theorem video_apply_returns_input:
  "VideoRecorder_apply u8 r x = (Inr y, r') \<longrightarrow>
     y = x
     \<and> (obs r' = obs r
        \<or> obs r' = obs r @ [to_uint8 u8 (unsqueeze (- 3) x)]
        \<or> obs r' = obs r @ [to_uint8 u8 (permute_2_0_1 x)])"
  by (auto simp: VideoRecorder_apply_def Let_def split: if_splits)


text \<open>
  The theorem at a frame of shape \<open>[4]\<close> on a recording call, at a frame of shape
  \<open>[2, 2, 4]\<close> on a skipped call, and at a frame of shape \<open>[1, 2]\<close>.
\<close>

theorem video_shape_validation_witness:
  "VideoRecorder_apply (\<lambda>v. v) \<lparr>iter = 0, skip = 2, writer = [], tag = ''v'', count = 1, obs = []\<rparr>
       \<lparr>shape = [4], dtype = OtherDtype, vals = [0, 0, 0, 0]\<rparr>
     = (Inl InvalidObservationShape,
        \<lparr>iter = 0, skip = 2, writer = [], tag = ''v'', count = 1, obs = []\<rparr>)
   \<and> VideoRecorder_apply (\<lambda>v. v) \<lparr>iter = 0, skip = 2, writer = [], tag = ''v'', count = 0, obs = []\<rparr>
       \<lparr>shape = [2, 2, 4], dtype = OtherDtype, vals = replicate 16 0\<rparr>
     = (Inl InvalidObservationShape,
        \<lparr>iter = 0, skip = 2, writer = [], tag = ''v'', count = 0, obs = []\<rparr>)
   \<and> fst (VideoRecorder_apply (\<lambda>v. v)
          \<lparr>iter = 0, skip = 2, writer = [], tag = ''v'', count = 1, obs = []\<rparr>
          \<lparr>shape = [1, 2], dtype = OtherDtype, vals = [7, 8]\<rparr>)
     = Inr \<lparr>shape = [1, 2], dtype = OtherDtype, vals = [7, 8]\<rparr>"
  using video_shape_validation [of "\<lparr>shape = [4], dtype = OtherDtype, vals = [0, 0, 0, 0]\<rparr>"
      "\<lambda>v. v" "\<lparr>iter = 0, skip = 2, writer = [], tag = ''v'', count = 1, obs = []\<rparr>"]
    video_shape_validation [of "\<lparr>shape = [2, 2, 4], dtype = OtherDtype, vals = replicate 16 0\<rparr>"
      "\<lambda>v. v" "\<lparr>iter = 0, skip = 2, writer = [], tag = ''v'', count = 0, obs = []\<rparr>"]
    video_shape_validation [of "\<lparr>shape = [1, 2], dtype = OtherDtype, vals = [7, 8]\<rparr>"
      "\<lambda>v. v" "\<lparr>iter = 0, skip = 2, writer = [], tag = ''v'', count = 1, obs = []\<rparr>"]
  by (simp add: ndimension_def)

text \<open>
  The theorem at a frame of shape \<open>[1, 2, 3]\<close> on a recording call: the frame comes
  back as it was, and the buffer holds the permuted 8-bit copy.
\<close>

theorem video_apply_returns_input_witness:
  "VideoRecorder_apply (\<lambda>v. v)
       \<lparr>iter = 0, skip = 2, writer = [], tag = ''v'', count = 1, obs = []\<rparr>
       \<lparr>shape = [1, 2, 3], dtype = OtherDtype, vals = [1, 2, 3, 4, 5, 6]\<rparr>
     = (Inr \<lparr>shape = [1, 2, 3], dtype = OtherDtype, vals = [1, 2, 3, 4, 5, 6]\<rparr>,
        \<lparr>iter = 0, skip = 2, writer = [], tag = ''v'', count = 2,
         obs = [\<lparr>shape = [3, 1, 2], dtype = Uint8, vals = [1, 4, 2, 5, 3, 6]\<rparr>]\<rparr>)"
proof -
  let ?r = "\<lparr>iter = 0, skip = 2, writer = [], tag = ''v'', count = 1, obs = []\<rparr>"
  let ?x = "\<lparr>shape = [1, 2, 3], dtype = OtherDtype, vals = [1, 2, 3, 4, 5, 6]\<rparr>"
  obtain y r' where yr: "VideoRecorder_apply (\<lambda>v. v) ?r ?x = (Inr y, r')"
    by (simp add: VideoRecorder_apply_def ndimension_def Let_def)
  have r': "r' = \<lparr>iter = 0, skip = 2, writer = [], tag = ''v'', count = 2,
         obs = [\<lparr>shape = [3, 1, 2], dtype = Uint8, vals = [1, 4, 2, 5, 3, 6]\<rparr>]\<rparr>"
    using yr
    by (simp add: VideoRecorder_apply_def ndimension_def Let_def to_uint8_def
          permute_2_0_1_def upt_conv_Cons)
  from video_apply_returns_input [of "\<lambda>v. v" ?r ?x y r'] yr have "y = ?x" by blast
  with yr r' show ?thesis by simp
qed












section \<open>Properties of the tensor operations\<close>

lemma bind_Inr [simp]: "bind (Inr x) f = f x"
  by (simp add: bind_def)

lemma bind_Inl [simp]: "bind (Inl e) f = Inl e"
  by (simp add: bind_def)

lemma collect_map_Inr:
  "\<forall>z \<in> set zs. F z = Inr (G z) \<Longrightarrow> collect (map F zs) = Inr (map G zs)"
  by (induction zs) simp_all

text \<open>
  Broadcasting on operands of one shape is the elementwise operation; a column of
  one-element rows is spread over the rows of the other operand.
\<close>

lemma bcast_same_length:
  "length xs = length ys \<Longrightarrow> bcast F xs ys = collect (map2 F xs ys)"
  by (simp add: bcast_def)

lemma bcast_rows_same:
  assumes "length r = length s"
  shows "bcast (\<lambda>x y. Inr (f x y)) r s = Inr (map2 f r s)"
proof -
  have "collect (map (\<lambda>(x, y). Inr (f x y)) (zip r s)) = Inr (map (\<lambda>(x, y). f x y) (zip r s))"
    by (rule collect_map_Inr) auto
  then show ?thesis using assms by (simp add: bcast_def)
qed

lemma bcast_rows_single:
  "bcast (\<lambda>x y. Inr (f x y)) [c] s = Inr (map (f c) s)"
proof (cases "length s = 1")
  case True
  then obtain y where "s = [y]" by (cases s) auto
  then show ?thesis by (simp add: bcast_def)
next
  case False
  have "collect (map (\<lambda>y. Inr (f c y)) s) = Inr (map (f c) s)"
    by (rule collect_map_Inr) simp
  then show ?thesis using False by (simp add: bcast_def)
qed

lemma zip_same_shape:
  assumes "map length a = map length b" "(x, y) \<in> set (zip a b)"
  shows "length x = length y"
proof -
  from assms(2) obtain i where i: "i < length a" "i < length b" "x = a ! i" "y = b ! i"
    by (auto simp: set_zip)
  have "map length a ! i = map length b ! i" using assms(1) by simp
  then show ?thesis using i by simp
qed

lemma tensor_op_same_shape:
  assumes "map length a = map length b"
  shows "tensor_op f a b = Inr (map2 (map2 f) a b)"
proof -
  have len: "length a = length b" using assms by (rule map_eq_imp_length_eq)
  have "collect (map (\<lambda>(x, y). bcast (\<lambda>x y. Inr (f x y)) x y) (zip a b))
      = Inr (map (\<lambda>(x, y). map2 f x y) (zip a b))"
  proof (rule collect_map_Inr, rule ballI)
    fix z assume z: "z \<in> set (zip a b)"
    obtain x y where xy: "z = (x, y)" by (cases z)
    with z have "length x = length y" using zip_same_shape [OF assms] by blast
    then show "(case z of (x, y) \<Rightarrow> bcast (\<lambda>x y. Inr (f x y)) x y)
        = Inr (case z of (x, y) \<Rightarrow> map2 f x y)"
      using xy by (simp add: bcast_rows_same)
  qed
  then show ?thesis by (simp only: tensor_op_def bcast_same_length [OF len])
qed

lemma tensor_op_column:
  assumes "length s = length t" "\<forall>r \<in> set s. length r = 1"
  shows "tensor_op f s t = Inr (map2 (\<lambda>sr r. map (f (hd sr)) r) s t)"
proof -
  have "collect (map (\<lambda>(x, y). bcast (\<lambda>x y. Inr (f x y)) x y) (zip s t))
      = Inr (map (\<lambda>(sr, r). map (f (hd sr)) r) (zip s t))"
  proof (rule collect_map_Inr, rule ballI)
    fix z assume z: "z \<in> set (zip s t)"
    obtain x y where xy: "z = (x, y)" by (cases z)
    with z have "x \<in> set s" by (auto dest: set_zip_leftD)
    then have "length x = 1" using assms(2) by blast
    then obtain c where "x = [c]" by (cases x) auto
    then show "(case z of (x, y) \<Rightarrow> bcast (\<lambda>x y. Inr (f x y)) x y)
        = Inr (case z of (sr, r) \<Rightarrow> map (f (hd sr)) r)"
      using xy by (simp add: bcast_rows_single)
  qed
  then show ?thesis by (simp only: tensor_op_def bcast_same_length [OF assms(1)])
qed

lemma shape_tensor_map [simp]: "map length (tensor_map f a) = map length a"
  by (simp add: tensor_map_def)

lemma shape_tensor_like [simp]: "map length (tensor_like g a) = map length a"
  by (rule nth_equalityI) (simp_all add: tensor_like_def nth_enumerate_eq)

lemma shape_map2_same:
  assumes "map length a = map length b"
  shows "map length (map2 (map2 f) a b) = map length a"
proof (rule nth_equalityI)
  have len: "length a = length b" using assms by (rule map_eq_imp_length_eq)
  then show "length (map length (map2 (map2 f) a b)) = length (map length a)" by simp
  fix i assume "i < length (map length (map2 (map2 f) a b))"
  then have i: "i < length a" "i < length b" using len by simp_all
  have "map length a ! i = map length b ! i" using assms by simp
  then have "length (a ! i) = length (b ! i)" using i by simp
  then show "map length (map2 (map2 f) a b) ! i = map length a ! i"
    using i by simp
qed

lemma shape_map2_column:
  assumes "length s = length t"
  shows "map length (map2 (\<lambda>sr r. map (f (hd sr)) r) s t) = map length t"
  by (rule nth_equalityI) (use assms in simp_all)

section \<open>Properties of the Ornstein-Uhlenbeck sampling step\<close>

lemma noise_key_neq_steps_key: "noise_key \<noteq> steps_key"
  by (simp add: noise_key_def steps_key_def)

text \<open>
  The record that \<^verbatim>\<open>add_sample\<close> returns when both bookkeeping keys are present, the
  stored noise has the shape of the action and the step counter is a column.
\<close>

lemma add_sample_present:
  fixes W :: "nat \<Rightarrow> nat \<Rightarrow> real"
  assumes kN: "entries d noise_key = Some N0"
      and kS: "entries d steps_key = Some S0"
      and kA: "entries d (ou_key p) = Some A"
      and shN: "map length N0 = map length A"
      and lenS: "length S0 = length N0"
      and colS: "\<forall>r \<in> set S0. length r = 1"
      and kd: "ou_key p \<noteq> noise_key" "ou_key p \<noteq> steps_key"
  defines "prev \<equiv> tensor_map (\<lambda>x. x + ou_x0 p) N0"
  defines "noise \<equiv> map2 (map2 (+))
      (map2 (map2 (+)) prev (tensor_map (\<lambda>x. ou_theta p * (ou_mu p - x) * ou_dt p) prev))
      (map2 (\<lambda>sr r. map ((*) (hd sr)) r)
         (tensor_map (\<lambda>n. current_sigma p n * sqrt (ou_dt p)) S0) (tensor_like W prev))"
  shows "add_sample p W d e =
     Inr (d\<lparr>entries := (entries d)
            (noise_key \<mapsto> tensor_map (\<lambda>x. x - ou_x0 p) noise,
             ou_key p \<mapsto> map2 (map2 (+)) A (tensor_map (\<lambda>x. e * x) noise),
             steps_key \<mapsto> tensor_map (\<lambda>n. n + 1) S0)\<rparr>)"
    and "map length noise = map length A"
proof -
  let ?g = "tensor_map (\<lambda>x. ou_theta p * (ou_mu p - x) * ou_dt p) prev"
  let ?col = "tensor_map (\<lambda>n. current_sigma p n * sqrt (ou_dt p)) S0"
  let ?drift = "map2 (map2 (+)) prev ?g"
  let ?diff = "map2 (\<lambda>sr r. map ((*) (hd sr)) r) ?col (tensor_like W prev)"
  have shp: "map length prev = map length N0" by (simp add: prev_def)
  have g1: "td_get d noise_key = Inr N0" using kN by (simp add: td_get_def)
  have g2: "td_get d steps_key = Inr S0" using kS by (simp add: td_get_def)
  have o1: "tensor_op (+) prev ?g = Inr ?drift"
    by (rule tensor_op_same_shape) simp
  have lc: "length ?col = length (tensor_like W prev)"
    using lenS by (simp add: tensor_map_def tensor_like_def prev_def)
  have cc: "\<forall>r \<in> set ?col. length r = 1" using colS by (auto simp: tensor_map_def)
  have o2: "tensor_op (*) ?col (tensor_like W prev) = Inr ?diff"
    by (rule tensor_op_column [OF lc cc])
  have sd: "map length ?drift = map length prev" by (rule shape_map2_same) simp
  have sf: "map length ?diff = map length prev"
    using shape_map2_column [OF lc, of "(*)"] by simp
  have o3: "tensor_op (+) ?drift ?diff = Inr noise"
    unfolding noise_def by (rule tensor_op_same_shape) (simp only: sd sf)
  have sn: "map length noise = map length prev"
    unfolding noise_def using shape_map2_same [of ?drift ?diff "(+)"] sd sf by simp
  have o4: "tensor_op (+) A (tensor_map (\<lambda>x. e * x) noise)
      = Inr (map2 (map2 (+)) A (tensor_map (\<lambda>x. e * x) noise))"
    by (rule tensor_op_same_shape) (simp add: sn shp shN)
  show "map length noise = map length A" using sn shp shN by simp
  show "add_sample p W d e =
     Inr (d\<lparr>entries := (entries d)
            (noise_key \<mapsto> tensor_map (\<lambda>x. x - ou_x0 p) noise,
             ou_key p \<mapsto> map2 (map2 (+)) A (tensor_map (\<lambda>x. e * x) noise),
             steps_key \<mapsto> tensor_map (\<lambda>n. n + 1) S0)\<rparr>)"
    unfolding add_sample_def
    using kN kS kA kd noise_key_neq_steps_key
    by (simp add: g1 g2 Let_def prev_def [symmetric] o1 o2 o3 o4 td_set_inplace_def td_set_def
          td_get_def)
qed

text \<open>
  On a record without the noise key, \<^verbatim>\<open>add_sample\<close> first writes the zero noise and the
  zero step counter and then proceeds as on that record.
\<close>

lemma add_sample_lazy:
  assumes "entries d noise_key = None" "entries d (ou_key p) = Some A"
  shows "add_sample p W d e =
     add_sample p W (td_set (td_set d noise_key (tensor_map (\<lambda>_. 0) A))
                       steps_key (replicate (batch_size d) [0])) e"
  using assms noise_key_neq_steps_key
  by (simp add: add_sample_def make_noise_pair_def td_get_def td_set_def)

lemma same_shape_nth:
  assumes "map length a = map length b" "i < length b"
  shows "i < length a" "length (a ! i) = length (b ! i)"
proof -
  have len: "length a = length b" using assms(1) by (rule map_eq_imp_length_eq)
  then show "i < length a" using assms(2) by simp
  have "map length a ! i = map length b ! i" using assms(1) by simp
  then show "length (a ! i) = length (b ! i)" using assms(2) len by simp
qed

lemma tensor_map_nth:
  "i < length a \<Longrightarrow> j < length (a ! i) \<Longrightarrow> tensor_map f a ! i ! j = f (a ! i ! j)"
  by (simp add: tensor_map_def)

lemma tensor_like_nth:
  "i < length a \<Longrightarrow> j < length (a ! i) \<Longrightarrow> tensor_like g a ! i ! j = g i j"
  by (simp add: tensor_like_def nth_enumerate_eq)

lemma map2_map2_nth:
  assumes "i < length a" "i < length b" "j < length (a ! i)" "j < length (b ! i)"
  shows "map2 (map2 f) a b ! i ! j = f (a ! i ! j) (b ! i ! j)"
  using assms by simp

lemma map2_column_nth:
  assumes "i < length s" "i < length t" "j < length (t ! i)"
  shows "map2 (\<lambda>sr r. map (f (hd sr)) r) s t ! i ! j = f (hd (s ! i)) (t ! i ! j)"
  using assms by simp

lemma noise_nth:
  fixes W :: "nat \<Rightarrow> nat \<Rightarrow> real"
  assumes lenS: "length S0 = length N0" and i: "i < length N0" and j: "j < length (N0 ! i)"
      and one: "length (S0 ! i) = 1"
  shows "map2 (map2 (+))
      (map2 (map2 (+)) N0 (tensor_map g N0))
      (map2 (\<lambda>sr r. map ((*) (hd sr)) r) (tensor_map h S0) (tensor_like W N0)) ! i ! j
    = N0 ! i ! j + g (N0 ! i ! j) + h (hd (S0 ! i)) * W i j"
proof -
  have iS: "i < length S0" using lenS i by simp
  have h: "hd (tensor_map h S0 ! i) = h (hd (S0 ! i))"
  proof -
    from one obtain c where "S0 ! i = [c]" by (cases "S0 ! i") auto
    then show ?thesis using iS by (simp add: tensor_map_def)
  qed
  have li: "length (tensor_like W N0 ! i) = length (N0 ! i)"
    using i by (simp add: tensor_like_def nth_enumerate_eq)
  have lg: "length (tensor_map g N0 ! i) = length (N0 ! i)"
    using i by (simp add: tensor_map_def)
  have a: "map2 (map2 (+)) N0 (tensor_map g N0) ! i ! j = N0 ! i ! j + g (N0 ! i ! j)"
    using i j lg by (simp add: tensor_map_def)
  have b: "map2 (\<lambda>sr r. map ((*) (hd sr)) r) (tensor_map h S0) (tensor_like W N0) ! i ! j
      = h (hd (S0 ! i)) * W i j"
    using i j iS li h by (simp add: tensor_map_def tensor_like_def nth_enumerate_eq)
  have la: "length (map2 (map2 (+)) N0 (tensor_map g N0) ! i) = length (N0 ! i)"
    using i lg by (simp add: tensor_map_def)
  have lb: "length (map2 (\<lambda>sr r. map ((*) (hd sr)) r) (tensor_map h S0) (tensor_like W N0) ! i)
      = length (N0 ! i)"
    using i iS li by (simp add: tensor_map_def tensor_like_def)
  have "map2 (map2 (+))
      (map2 (map2 (+)) N0 (tensor_map g N0))
      (map2 (\<lambda>sr r. map ((*) (hd sr)) r) (tensor_map h S0) (tensor_like W N0)) ! i ! j
    = map2 (map2 (+)) N0 (tensor_map g N0) ! i ! j
      + map2 (\<lambda>sr r. map ((*) (hd sr)) r) (tensor_map h S0) (tensor_like W N0) ! i ! j"
    by (rule map2_map2_nth)
       (use i iS j la lb in \<open>simp_all add: tensor_map_def tensor_like_def\<close>)
  then show ?thesis by (simp only: a b)
qed

lemma tensor_map_ident [simp]: "tensor_map (\<lambda>x. x) a = a"
  by (simp add: tensor_map_def)

lemma length_tensor_map [simp]: "length (tensor_map f a) = length a"
  by (simp add: tensor_map_def)

lemma tensor_map_row_length:
  "i < length a \<Longrightarrow> length (tensor_map f a ! i) = length (a ! i)"
  by (simp add: tensor_map_def)

lemma ou_step_present:
  fixes W :: "nat \<Rightarrow> nat \<Rightarrow> real"
  assumes kN: "entries d noise_key = Some N0"
      and kS: "entries d steps_key = Some S0"
      and kA: "entries d (ou_key p) = Some A"
      and shN: "map length N0 = map length A"
      and lenS: "length S0 = length A"
      and colS: "\<forall>r \<in> set S0. length r = 1"
      and kd: "ou_key p \<noteq> noise_key" "ou_key p \<noteq> steps_key"
      and x0: "ou_x0 p = 0"
  shows "\<exists>d' N1 A1. add_sample p W d e = Inr d'
           \<and> entries d' noise_key = Some N1 \<and> entries d' (ou_key p) = Some A1
           \<and> entries d' steps_key = Some (tensor_map (\<lambda>n. n + 1) S0)
           \<and> map length N1 = map length A \<and> map length A1 = map length A
           \<and> (\<forall>i < length A. \<forall>j < length (A ! i).
                 N1 ! i ! j = N0 ! i ! j + ou_theta p * (ou_mu p - N0 ! i ! j) * ou_dt p
                     + current_sigma p (hd (S0 ! i)) * sqrt (ou_dt p) * W i j
               \<and> A1 ! i ! j = A ! i ! j + e * N1 ! i ! j)"
proof -
  let ?g = "\<lambda>x. ou_theta p * (ou_mu p - x) * ou_dt p"
  let ?h = "\<lambda>n. current_sigma p n * sqrt (ou_dt p)"
  define drift where "drift = map2 (map2 (+)) N0 (tensor_map ?g N0)"
  define diffusion where
    "diffusion = map2 (\<lambda>sr r. map ((*) (hd sr)) r) (tensor_map ?h S0) (tensor_like W N0)"
  define N1 where "N1 = map2 (map2 (+)) drift diffusion"
  define T where "T = tensor_map (\<lambda>x. e * x) N1"
  define A1 where "A1 = map2 (map2 (+)) A T"
  define d' where "d' = d\<lparr>entries := (entries d)
            (noise_key \<mapsto> N1, ou_key p \<mapsto> A1,
             steps_key \<mapsto> tensor_map (\<lambda>n. n + 1) S0)\<rparr>"
  have lenN: "length N0 = length A" using shN by (rule map_eq_imp_length_eq)
  have lenS': "length S0 = length N0" using lenS lenN by simp
  have res: "add_sample p W d e = Inr d'"
    using add_sample_present(1) [OF kN kS kA shN lenS' colS kd, of W e] x0
    by (simp add: d'_def A1_def T_def N1_def drift_def diffusion_def)
  have lc: "length (tensor_map ?h S0) = length (tensor_like W N0)"
    using lenS' by (simp add: tensor_like_def)
  have sd: "map length drift = map length N0"
    unfolding drift_def by (rule shape_map2_same) (simp only: shape_tensor_map)
  have sf: "map length diffusion = map length N0"
    unfolding diffusion_def using shape_map2_column [OF lc, of "(*)"]
    by (simp only: shape_tensor_like)
  have sN1: "map length N1 = map length A"
    unfolding N1_def using shape_map2_same [of drift diffusion "(+)"] sd sf shN
    by (simp only:)
  have sT: "map length T = map length A"
    unfolding T_def by (simp only: shape_tensor_map sN1)
  have sA1: "map length A1 = map length A"
    unfolding A1_def by (rule shape_map2_same) (simp only: sT)
  have e1: "entries d' noise_key = Some N1"
    using kd noise_key_neq_steps_key by (simp add: d'_def)
  have e2: "entries d' (ou_key p) = Some A1" using kd by (simp add: d'_def)
  have e3: "entries d' steps_key = Some (tensor_map (\<lambda>n. n + 1) S0)" by (simp add: d'_def)
  have el: "N1 ! i ! j = N0 ! i ! j + ou_theta p * (ou_mu p - N0 ! i ! j) * ou_dt p
                     + current_sigma p (hd (S0 ! i)) * sqrt (ou_dt p) * W i j
               \<and> A1 ! i ! j = A ! i ! j + e * N1 ! i ! j"
    if i: "i < length A" and j: "j < length (A ! i)" for i j
  proof -
    have iN: "i < length N0" and lN: "length (N0 ! i) = length (A ! i)"
      using same_shape_nth [OF shN i] by simp_all
    have jN: "j < length (N0 ! i)" using j lN by simp
    have iS: "i < length S0" using i lenS by simp
    then have one: "length (S0 ! i) = 1" using colS by simp
    have n: "N1 ! i ! j = N0 ! i ! j + ?g (N0 ! i ! j) + ?h (hd (S0 ! i)) * W i j"
      unfolding N1_def drift_def diffusion_def by (rule noise_nth [OF lenS' iN jN one])
    have iN1: "i < length N1" and lN1: "length (N1 ! i) = length (A ! i)"
      using same_shape_nth [OF sN1 i] by simp_all
    have iT: "i < length T" and lT: "length (T ! i) = length (A ! i)"
      using same_shape_nth [OF sT i] by simp_all
    have jT: "j < length (T ! i)" using j lT by simp
    have "A1 ! i ! j = A ! i ! j + T ! i ! j"
      unfolding A1_def by (rule map2_map2_nth [OF i iT j jT])
    also have "T ! i ! j = e * N1 ! i ! j"
      unfolding T_def by (rule tensor_map_nth) (use iN1 lN1 j in simp_all)
    finally have a: "A1 ! i ! j = A ! i ! j + e * N1 ! i ! j" .
    show ?thesis using n a by simp
  qed
  show ?thesis
    by (intro exI [of _ d'] exI [of _ N1] exI [of _ A1] conjI res e1 e2 e3 sN1 sA1 allI impI)
       (use el in blast)+
qed


lemma add_sample_present_entries:
  fixes W :: "nat \<Rightarrow> nat \<Rightarrow> real"
  assumes kN: "entries d noise_key = Some N0"
      and kS: "entries d steps_key = Some S0"
      and kA: "entries d (ou_key p) = Some A"
      and shN: "map length N0 = map length A"
      and lenS: "length S0 = length A"
      and colS: "\<forall>r \<in> set S0. length r = 1"
      and kd: "ou_key p \<noteq> noise_key" "ou_key p \<noteq> steps_key"
  shows "\<exists>d' N1 A1. add_sample p W d e = Inr d'
           \<and> entries d' noise_key = Some N1 \<and> entries d' (ou_key p) = Some A1
           \<and> entries d' steps_key = Some (tensor_map (\<lambda>n. n + 1) S0)
           \<and> map length N1 = map length A \<and> map length A1 = map length A"
proof -
  have lenN: "length N0 = length A" using shN by (rule map_eq_imp_length_eq)
  have lenS': "length S0 = length N0" using lenS lenN by simp
  define prev where "prev = tensor_map (\<lambda>x. x + ou_x0 p) N0"
  define noise where "noise = map2 (map2 (+))
      (map2 (map2 (+)) prev (tensor_map (\<lambda>x. ou_theta p * (ou_mu p - x) * ou_dt p) prev))
      (map2 (\<lambda>sr r. map ((*) (hd sr)) r)
         (tensor_map (\<lambda>n. current_sigma p n * sqrt (ou_dt p)) S0) (tensor_like W prev))"
  define N1 where "N1 = tensor_map (\<lambda>x. x - ou_x0 p) noise"
  define T where "T = tensor_map (\<lambda>x. e * x) noise"
  define A1 where "A1 = map2 (map2 (+)) A T"
  define d' where "d' = d\<lparr>entries := (entries d)
            (noise_key \<mapsto> N1, ou_key p \<mapsto> A1,
             steps_key \<mapsto> tensor_map (\<lambda>n. n + 1) S0)\<rparr>"
  have res: "add_sample p W d e = Inr d'"
    unfolding d'_def A1_def T_def N1_def noise_def prev_def
    by (rule add_sample_present(1) [OF kN kS kA shN lenS' colS kd])
  have sn: "map length noise = map length A"
    unfolding noise_def prev_def
    by (rule add_sample_present(2) [OF kN kS kA shN lenS' colS kd])
  have sN1: "map length N1 = map length A"
    unfolding N1_def by (simp only: shape_tensor_map sn)
  have sT: "map length T = map length A"
    unfolding T_def by (simp only: shape_tensor_map sn)
  have sA1: "map length A1 = map length A"
    unfolding A1_def by (rule shape_map2_same) (simp only: sT)
  have e1: "entries d' noise_key = Some N1"
    using kd noise_key_neq_steps_key by (simp add: d'_def)
  have e2: "entries d' (ou_key p) = Some A1" using kd by (simp add: d'_def)
  have e3: "entries d' steps_key = Some (tensor_map (\<lambda>n. n + 1) S0)" by (simp add: d'_def)
  show ?thesis
    by (intro exI [of _ d'] exI [of _ N1] exI [of _ A1] conjI res e1 e2 e3 sN1 sA1)
qed

lemma lazy_record:
  assumes "entries d noise_key = None" "entries d (ou_key p) = Some A"
      and "ou_key p \<noteq> steps_key"
  defines "d0 \<equiv> td_set (td_set d noise_key (tensor_map (\<lambda>_. 0) A))
                    steps_key (replicate (batch_size d) [0])"
  shows "make_noise_pair p d = Inr d0"
    and "entries d0 noise_key = Some (tensor_map (\<lambda>_. 0) A)"
    and "entries d0 steps_key = Some (replicate (batch_size d) [0])"
    and "entries d0 (ou_key p) = Some A"
    and "ou_key p \<noteq> noise_key"
    and "add_sample p W d e = add_sample p W d0 e"
proof -
  show k: "ou_key p \<noteq> noise_key" using assms(1,2) by auto
  show "make_noise_pair p d = Inr d0"
    using assms(2) by (simp add: make_noise_pair_def td_get_def d0_def)
  show "entries d0 noise_key = Some (tensor_map (\<lambda>_. 0) A)"
    using noise_key_neq_steps_key by (simp add: d0_def td_set_def)
  show "entries d0 steps_key = Some (replicate (batch_size d) [0])"
    by (simp add: d0_def td_set_def)
  show "entries d0 (ou_key p) = Some A"
    using assms(2,3) k by (simp add: d0_def td_set_def)
  show "add_sample p W d e = add_sample p W d0 e"
    unfolding d0_def by (rule add_sample_lazy [OF assms(1,2)])
qed

text \<open>
  Claim C2. Let the record hold the action \<open>A\<close> under the process's key, and either
  lack the noise key (then \<open>N0\<close> and \<open>S0\<close> are the zero noise and the zero step counter
  that \<^verbatim>\<open>add_sample\<close> creates) or hold the noise \<open>N0\<close>, of the shape of \<open>A\<close>, and the
  step counter \<open>S0\<close>, one count per batch element. With \<open>x0 = 0\<close> and \<open>dt \<ge> 0\<close>, \<^verbatim>\<open>add_sample\<close>
  returns a record whose noise \<open>N1\<close> and action \<open>A1\<close> have the shape of \<open>A\<close> and satisfy,
  for every batch element \<open>i\<close> and component \<open>j\<close>, with \<open>W i j\<close> the standard-normal draw:
  \<open>N1 = N0 + theta * (mu - N0) * dt + current_sigma(n_steps of i) * sqrt dt * W\<close> and
  \<open>A1 = A + eps * N1\<close>; the step counter is incremented by one.
\<close>

theorem ou_add_sample_recurrence:
  fixes W :: "nat \<Rightarrow> nat \<Rightarrow> real"
  assumes kA: "entries d (ou_key p) = Some A"
      and ks: "ou_key p \<noteq> steps_key"
      and x0: "ou_x0 p = 0"
      and dt: "0 \<le> ou_dt p"
      and st: "(entries d noise_key = None \<and> batch_size d = length A
                  \<and> N0 = tensor_map (\<lambda>_. 0) A \<and> S0 = replicate (length A) [0])
             \<or> (entries d noise_key = Some N0 \<and> entries d steps_key = Some S0
                  \<and> ou_key p \<noteq> noise_key
                  \<and> map length N0 = map length A \<and> length S0 = length A
                  \<and> (\<forall>r \<in> set S0. length r = 1))"
  shows "\<exists>d' N1 A1. add_sample p W d e = Inr d'
           \<and> entries d' noise_key = Some N1 \<and> entries d' (ou_key p) = Some A1
           \<and> entries d' steps_key = Some (tensor_map (\<lambda>n. n + 1) S0)
           \<and> map length N1 = map length A \<and> map length A1 = map length A
           \<and> (\<forall>i < length A. \<forall>j < length (A ! i).
                 N1 ! i ! j = N0 ! i ! j + ou_theta p * (ou_mu p - N0 ! i ! j) * ou_dt p
                     + current_sigma p (hd (S0 ! i)) * sqrt (ou_dt p) * W i j
               \<and> A1 ! i ! j = A ! i ! j + e * N1 ! i ! j)"
  using st
proof
  assume lazy: "entries d noise_key = None \<and> batch_size d = length A
                  \<and> N0 = tensor_map (\<lambda>_. 0) A \<and> S0 = replicate (length A) [0]"
  let ?d0 = "td_set (td_set d noise_key (tensor_map (\<lambda>_. 0) A))
                    steps_key (replicate (batch_size d) [0])"
  have n: "entries d noise_key = None" using lazy by simp
  have kN: "entries ?d0 noise_key = Some N0"
    using lazy_record(2) [OF n kA ks] lazy by simp
  have kS: "entries ?d0 steps_key = Some S0"
    using lazy_record(3) [OF n kA ks] lazy by simp
  have kA0: "entries ?d0 (ou_key p) = Some A" by (rule lazy_record(4) [OF n kA ks])
  have kn: "ou_key p \<noteq> noise_key" by (rule lazy_record(5) [OF n kA ks])
  have eq: "add_sample p W d e = add_sample p W ?d0 e" by (rule lazy_record(6) [OF n kA ks])
  have shN: "map length N0 = map length A" using lazy by simp
  have lenS: "length S0 = length A" using lazy by simp
  have colS: "\<forall>r \<in> set S0. length r = 1" using lazy by simp
  show ?thesis
    unfolding eq by (rule ou_step_present [OF kN kS kA0 shN lenS colS kn ks x0])
next
  assume pres: "entries d noise_key = Some N0 \<and> entries d steps_key = Some S0
                  \<and> ou_key p \<noteq> noise_key
                  \<and> map length N0 = map length A \<and> length S0 = length A
                  \<and> (\<forall>r \<in> set S0. length r = 1)"
  show ?thesis
    by (rule ou_step_present [OF _ _ kA _ _ _ _ ks x0]) (use pres in simp_all)
qed

text \<open>
  Claim C6. On a record that lacks both bookkeeping keys and holds the action, with
  one row per batch element: \<^verbatim>\<open>_make_noise_pair\<close> sets the step counter to zero for
  every batch element, the first \<^verbatim>\<open>add_sample\<close> call returns with the counter at 1, and
  a second call on the returned record returns with the counter at 2, whatever the
  draws and the epsilons of the two calls are.
\<close>

theorem ou_step_counter_twice:
  fixes W1 W2 :: "nat \<Rightarrow> nat \<Rightarrow> real"
  assumes n: "entries d noise_key = None" and s: "entries d steps_key = None"
      and kA: "entries d (ou_key p) = Some A" and b: "batch_size d = length A"
  shows "\<exists>d0 d1 d2. make_noise_pair p d = Inr d0
           \<and> entries d0 steps_key = Some (replicate (batch_size d) [0])
           \<and> add_sample p W1 d e1 = Inr d1
           \<and> entries d1 steps_key = Some (replicate (batch_size d) [1])
           \<and> add_sample p W2 d1 e2 = Inr d2
           \<and> entries d2 steps_key = Some (replicate (batch_size d) [2])"
proof -
  let ?Z = "tensor_map (\<lambda>_. 0) A"
  let ?S0 = "replicate (batch_size d) [0::real]"
  let ?d0 = "td_set (td_set d noise_key ?Z) steps_key ?S0"
  have ks: "ou_key p \<noteq> steps_key" using s kA by auto
  have kn: "ou_key p \<noteq> noise_key" by (rule lazy_record(5) [OF n kA ks])
  have m: "make_noise_pair p d = Inr ?d0" by (rule lazy_record(1) [OF n kA ks])
  have kN: "entries ?d0 noise_key = Some ?Z" by (rule lazy_record(2) [OF n kA ks])
  have kS: "entries ?d0 steps_key = Some ?S0" by (rule lazy_record(3) [OF n kA ks])
  have kA0: "entries ?d0 (ou_key p) = Some A" by (rule lazy_record(4) [OF n kA ks])
  have eq: "add_sample p W1 d e1 = add_sample p W1 ?d0 e1"
    by (rule lazy_record(6) [OF n kA ks])
  have shZ: "map length ?Z = map length A" by simp
  have lenS: "length ?S0 = length A" using b by simp
  have colS: "\<forall>r \<in> set ?S0. length r = 1" by simp
  from add_sample_present_entries [OF kN kS kA0 shZ lenS colS kn ks, of W1 e1]
  obtain d1 N1 A1 where
    r1: "add_sample p W1 ?d0 e1 = Inr d1"
    and n1: "entries d1 noise_key = Some N1" and a1: "entries d1 (ou_key p) = Some A1"
    and s1: "entries d1 steps_key = Some (tensor_map (\<lambda>n. n + 1) ?S0)"
    and shN1: "map length N1 = map length A" and shA1: "map length A1 = map length A"
    by blast
  let ?S1 = "tensor_map (\<lambda>n. n + 1) ?S0"
  have S1: "?S1 = replicate (batch_size d) [1]" by (simp add: tensor_map_def)
  have lenA1: "length A1 = length A" using shA1 by (rule map_eq_imp_length_eq)
  have sh: "map length N1 = map length A1" using shN1 shA1 by simp
  have lenS1: "length ?S1 = length A1" using b lenA1 by simp
  have colS1: "\<forall>r \<in> set ?S1. length r = 1" unfolding S1 by simp
  from add_sample_present_entries [OF n1 s1 a1 sh lenS1 colS1 kn ks, of W2 e2]
  obtain d2 where
    r2: "add_sample p W2 d1 e2 = Inr d2"
    and s2: "entries d2 steps_key = Some (tensor_map (\<lambda>n. n + 1) ?S1)"
    by blast
  have S2: "tensor_map (\<lambda>n. n + 1) ?S1 = replicate (batch_size d) [2]"
    unfolding S1 by (simp add: tensor_map_def)
  show ?thesis
    using m kS r1 [folded eq] s1 [unfolded S1] r2 s2 [unfolded S2] by blast
qed


text \<open>
  The theorem on a record of one batch element with the action \<open>[1, 2]\<close> and no
  bookkeeping keys, draws \<open>1/2\<close>, \<open>sigma = 0.2\<close>, \<open>dt = 1\<close> and \<open>eps = 1\<close>.
\<close>

theorem ou_add_sample_recurrence_witness:
  "\<exists>d' N1 A1.
     add_sample
       \<lparr>ou_mu = 0, ou_sigma = 1 / 5, ou_m = 0, ou_c = 1 / 5, ou_sigma_min = 1 / 5,
        ou_theta = 3 / 20, ou_dt = 1, ou_x0 = 0, ou_key = ''action''\<rparr>
       (\<lambda>i j. 1 / 2)
       \<lparr>batch_size = 1, entries = [''action'' \<mapsto> [[1, 2]]]\<rparr> 1 = Inr d'
     \<and> entries d' noise_key = Some N1 \<and> entries d' ''action'' = Some A1
     \<and> entries d' steps_key = Some [[1]]
     \<and> N1 ! 0 ! 1 = 1 / 10 \<and> A1 ! 0 ! 1 = 21 / 10"
proof -
  let ?p = "\<lparr>ou_mu = 0, ou_sigma = 1 / 5, ou_m = 0, ou_c = 1 / 5, ou_sigma_min = 1 / 5,
        ou_theta = 3 / 20, ou_dt = 1, ou_x0 = 0, ou_key = ''action''\<rparr>"
  let ?d = "\<lparr>batch_size = 1, entries = [''action'' \<mapsto> [[1, 2 :: real]]]\<rparr>"
  have kA: "entries ?d (ou_key ?p) = Some [[1, 2]]" by simp
  have ks: "ou_key ?p \<noteq> steps_key" by (simp add: steps_key_def)
  have x0: "ou_x0 ?p = 0" by simp
  have dt: "0 \<le> ou_dt ?p" by simp
  have st: "(entries ?d noise_key = None \<and> batch_size ?d = length [[1, 2 :: real]]
                  \<and> [[0, 0]] = tensor_map (\<lambda>_. 0) [[1, 2 :: real]]
                  \<and> [[0]] = replicate (length [[1, 2 :: real]]) [0 :: real])
             \<or> (entries ?d noise_key = Some [[0, 0]] \<and> entries ?d steps_key = Some [[0]]
                  \<and> ou_key ?p \<noteq> noise_key
                  \<and> map length [[0, 0 :: real]] = map length [[1, 2 :: real]]
                  \<and> length [[0 :: real]] = length [[1, 2 :: real]]
                  \<and> (\<forall>r \<in> set [[0 :: real]]. length r = 1))"
    by (simp add: noise_key_def tensor_map_def)
  from ou_add_sample_recurrence [OF kA ks x0 dt st, of "\<lambda>i j. 1 / 2" 1]
  obtain d' N1 A1 where
    r: "add_sample ?p (\<lambda>i j. 1 / 2) ?d 1 = Inr d'"
    and e: "entries d' noise_key = Some N1" "entries d' (ou_key ?p) = Some A1"
      "entries d' steps_key = Some (tensor_map (\<lambda>n. n + 1) [[0]])"
    and el: "\<forall>i < length [[1, 2 :: real]]. \<forall>j < length ([[1, 2 :: real]] ! i).
                 N1 ! i ! j = [[0, 0]] ! i ! j
                     + ou_theta ?p * (ou_mu ?p - [[0, 0]] ! i ! j) * ou_dt ?p
                     + current_sigma ?p (hd ([[0]] ! i)) * sqrt (ou_dt ?p) * (1 / 2)
               \<and> A1 ! i ! j = [[1, 2]] ! i ! j + 1 * N1 ! i ! j"
    by blast
  from el have "N1 ! 0 ! 1 = 1 / 10 \<and> A1 ! 0 ! 1 = 21 / 10"
    by (simp add: current_sigma_def)
  moreover have "tensor_map (\<lambda>n. n + 1) [[0 :: real]] = [[1]]" by (simp add: tensor_map_def)
  ultimately show ?thesis using r e by auto
qed

text \<open>
  The theorem on the same record, at the default parameters of the process.
\<close>

theorem ou_step_counter_twice_witness:
  "\<exists>d1 d2.
     add_sample
       \<lparr>ou_mu = 0, ou_sigma = 1 / 5, ou_m = 0, ou_c = 1 / 5, ou_sigma_min = 1 / 5,
        ou_theta = 3 / 20, ou_dt = 1 / 100, ou_x0 = 0, ou_key = ''action''\<rparr>
       (\<lambda>i j. 1 / 2)
       \<lparr>batch_size = 1, entries = [''action'' \<mapsto> [[1, 2]]]\<rparr> 1 = Inr d1
     \<and> entries d1 steps_key = Some [[1]]
     \<and> add_sample
       \<lparr>ou_mu = 0, ou_sigma = 1 / 5, ou_m = 0, ou_c = 1 / 5, ou_sigma_min = 1 / 5,
        ou_theta = 3 / 20, ou_dt = 1 / 100, ou_x0 = 0, ou_key = ''action''\<rparr>
       (\<lambda>i j. - 1 / 3) d1 1 = Inr d2
     \<and> entries d2 steps_key = Some [[2]]"
proof -
  let ?p = "\<lparr>ou_mu = 0, ou_sigma = 1 / 5, ou_m = 0, ou_c = 1 / 5, ou_sigma_min = 1 / 5,
        ou_theta = 3 / 20, ou_dt = 1 / 100, ou_x0 = 0, ou_key = ''action''\<rparr>"
  let ?d = "\<lparr>batch_size = 1, entries = [''action'' \<mapsto> [[1, 2 :: real]]]\<rparr>"
  have n: "entries ?d noise_key = None" by (simp add: noise_key_def)
  have s: "entries ?d steps_key = None" by (simp add: steps_key_def)
  have kA: "entries ?d (ou_key ?p) = Some [[1, 2]]" by simp
  have b: "batch_size ?d = length [[1, 2 :: real]]" by simp
  from ou_step_counter_twice [OF n s kA b, of "\<lambda>i j. 1 / 2" 1 "\<lambda>i j. - 1 / 3" 1]
  show ?thesis by auto
qed

section \<open>Properties of the epsilon-greedy forward pass\<close>

lemma map2_const_left_row:
  "length r = length s \<Longrightarrow> map2 f (map (\<lambda>_. c) r) s = map (f c) s"
  by (induction r s rule: list_induct2) simp_all

lemma map2_const_right_row:
  "length r = length s \<Longrightarrow> map2 f r (map (\<lambda>_. c) s) = map (\<lambda>x. f x c) r"
  by (induction r s rule: list_induct2) simp_all

lemma map2_const_left:
  assumes "map length a = map length b"
  shows "map2 (map2 f) (map (map (\<lambda>_. c)) a) b = map (map (f c)) b"
proof (rule nth_equalityI)
  have len: "length a = length b" using assms by (rule map_eq_imp_length_eq)
  then show "length (map2 (map2 f) (map (map (\<lambda>_. c)) a) b) = length (map (map (f c)) b)"
    by simp
  fix i assume "i < length (map2 (map2 f) (map (map (\<lambda>_. c)) a) b)"
  then have i: "i < length b" using len by simp
  have ia: "i < length a" and l: "length (a ! i) = length (b ! i)"
    using same_shape_nth [OF assms i] by simp_all
  show "map2 (map2 f) (map (map (\<lambda>_. c)) a) b ! i = map (map (f c)) b ! i"
    using i ia map2_const_left_row [OF l, of f c] by simp
qed

lemma map2_const_right:
  assumes "map length a = map length b"
  shows "map2 (map2 f) a (map (map (\<lambda>_. c)) b) = map (map (\<lambda>x. f x c)) a"
proof (rule nth_equalityI)
  have len: "length a = length b" using assms by (rule map_eq_imp_length_eq)
  then show "length (map2 (map2 f) a (map (map (\<lambda>_. c)) b)) = length (map (map (\<lambda>x. f x c)) a)"
    by simp
  fix i assume "i < length (map2 (map2 f) a (map (map (\<lambda>_. c)) b))"
  then have i: "i < length b" using len by simp
  have ia: "i < length a" and l: "length (a ! i) = length (b ! i)"
    using same_shape_nth [OF assms i] by simp_all
  show "map2 (map2 f) a (map (map (\<lambda>_. c)) b) ! i = map (map (\<lambda>x. f x c)) a ! i"
    using i ia map2_const_right_row [OF l, of f c] by simp
qed

lemma expand_as_right_uniform:
  assumes "\<forall>i < length out. f i = c"
  shows "expand_as_right (map f [0..<length out]) out = Inr (map (map (\<lambda>_. c)) out)"
proof -
  have "map2 (\<lambda>c r. map (\<lambda>_. c) r) (map f [0..<length out]) out = map (map (\<lambda>_. c)) out"
    by (rule nth_equalityI) (use assms in simp_all)
  then show ?thesis by (simp add: expand_as_right_def)
qed

text \<open>
  The forward pass when the comparison of the draws with epsilon gives the same value
  \<open>c\<close> for every batch element.
\<close>

lemma EGreedyWrapper_forward_uniform:
  fixes U :: "nat \<Rightarrow> real" and R :: "nat \<Rightarrow> nat \<Rightarrow> real"
  assumes mode: "mode = Some ''random'' \<or> mode = None"
      and keys: "policy_out_keys = k # ks"
      and out: "entries (policy tdict) k = Some out"
      and bs: "length out = batch_size (policy tdict)"
      and c: "\<forall>i < length out. (if U i < eps w then 1 else 0) = c"
  shows "EGreedyWrapper_forward policy policy_out_keys mode U R w tdict =
     Inr (td_set (policy tdict) k
            (map2 (map2 (+)) (map (map ((*) c)) (tensor_like R out))
                             (map (map ((*) (1 - c))) out)))"
proof -
  let ?T = "tensor_like R out"
  let ?cond = "map (map (\<lambda>_. c)) out"
  have g: "td_get (policy tdict) k = Inr out" using out by (simp add: td_get_def)
  have ex: "expand_as_right (map (\<lambda>i. if U i < eps w then 1 else 0)
               [0..<batch_size (policy tdict)]) out = Inr ?cond"
    using expand_as_right_uniform [OF c] bs by simp
  have sT: "map length out = map length ?T" by simp
  have "tensor_op (*) ?cond ?T = Inr (map2 (map2 (*)) ?cond ?T)"
    by (rule tensor_op_same_shape) (simp add: comp_def)
  then have a: "tensor_op (*) ?cond ?T = Inr (map (map ((*) c)) ?T)"
    by (simp only: map2_const_left [OF sT])
  have nc: "tensor_map (\<lambda>c. 1 - c) ?cond = map (map (\<lambda>_. 1 - c)) out"
    by (simp add: tensor_map_def comp_def)
  have "tensor_op (*) (map (map (\<lambda>_. 1 - c)) out) out
      = Inr (map2 (map2 (*)) (map (map (\<lambda>_. 1 - c)) out) out)"
    by (rule tensor_op_same_shape) (simp add: comp_def)
  then have b: "tensor_op (*) (tensor_map (\<lambda>c. 1 - c) ?cond) out
      = Inr (map (map ((*) (1 - c))) out)"
    by (simp only: nc map2_const_left [OF refl])
  have s: "tensor_op (+) (map (map ((*) c)) ?T) (map (map ((*) (1 - c))) out)
      = Inr (map2 (map2 (+)) (map (map ((*) c)) ?T) (map (map ((*) (1 - c))) out))"
    by (rule tensor_op_same_shape) (simp add: comp_def tensor_like_def nth_enumerate_eq
          del: shape_tensor_like, rule nth_equalityI, simp_all add: nth_enumerate_eq)
  show ?thesis
    unfolding EGreedyWrapper_forward_def Let_def
    using mode keys by (auto simp: g ex a b s)
qed


lemma tensor_scale_zero: "map (map ((*) (0::real))) a = map (map (\<lambda>_. 0)) a"
  by simp

lemma tensor_scale_one: "map (map ((*) (1::real))) a = a"
proof -
  have "(*) (1::real) = (\<lambda>x. x)" by (rule ext) simp
  then show ?thesis by simp
qed

text \<open>
  Claim C4. Let the exploration mode be \<^verbatim>\<open>"random"\<close> or unset, let the policy's first
  output key hold the action \<open>out\<close> with one row per batch element, and let every
  uniform draw lie in \<open>[0, 1)\<close>. With \<open>eps = 0\<close> the forward pass returns the policy's
  record unchanged: the action of every batch element is the policy's. With \<open>eps = 1\<close>
  it returns the policy's record with the action replaced, for every batch element, by
  the sample \<open>R\<close> of the action specification.
\<close>

theorem egreedy_forward_extremes:
  fixes U :: "nat \<Rightarrow> real" and R :: "nat \<Rightarrow> nat \<Rightarrow> real"
  assumes mode: "mode = Some ''random'' \<or> mode = None"
      and keys: "policy_out_keys = k # ks"
      and out: "entries (policy tdict) k = Some out"
      and bs: "length out = batch_size (policy tdict)"
      and U: "\<forall>i < batch_size (policy tdict). 0 \<le> U i \<and> U i < 1"
  shows "(eps w = 0 \<longrightarrow>
            EGreedyWrapper_forward policy policy_out_keys mode U R w tdict = Inr (policy tdict))
       \<and> (eps w = 1 \<longrightarrow>
            EGreedyWrapper_forward policy policy_out_keys mode U R w tdict
              = Inr (td_set (policy tdict) k (tensor_like R out)))"
proof (intro conjI impI)
  let ?T = "tensor_like R out"
  have sT: "map length ?T = map length out" by simp
  {
    assume e0: "eps w = 0"
    have c: "\<forall>i < length out. (if U i < eps w then 1 else 0) = (0::real)"
    proof (intro allI impI)
      fix i assume "i < length out"
      then have "0 \<le> U i" using U bs by simp
      then show "(if U i < eps w then 1 else 0) = (0::real)" using e0 by simp
    qed
    have "map2 (map2 (+)) (map (map ((*) 0)) ?T) (map (map ((*) (1 - 0))) out)
        = map2 (map2 (+)) (map (map (\<lambda>_. 0)) ?T) out"
      by (simp only: tensor_scale_zero tensor_scale_one diff_zero)
    also have "\<dots> = map (map ((+) 0)) out" by (rule map2_const_left [OF sT])
    also have "\<dots> = out"
    proof -
      have "(+) (0::real) = (\<lambda>x. x)" by (rule ext) simp
      then show ?thesis by simp
    qed
    finally have v: "map2 (map2 (+)) (map (map ((*) 0)) ?T) (map (map ((*) (1 - 0))) out) = out" .
    have "td_set (policy tdict) k out = policy tdict"
      using out by (simp add: td_set_def map_upd_triv)
    then show "EGreedyWrapper_forward policy policy_out_keys mode U R w tdict = Inr (policy tdict)"
      using EGreedyWrapper_forward_uniform [where policy = policy and tdict = tdict and R = R,
          OF mode keys out bs c] v by simp
  }
  {
    assume e1: "eps w = 1"
    have c: "\<forall>i < length out. (if U i < eps w then 1 else 0) = (1::real)"
      using U bs e1 by simp
    have "map2 (map2 (+)) (map (map ((*) 1)) ?T) (map (map ((*) (1 - 1))) out)
        = map2 (map2 (+)) ?T (map (map (\<lambda>_. 0)) out)"
      by (simp only: tensor_scale_zero tensor_scale_one diff_self)
    also have "\<dots> = map (map (\<lambda>x. x + 0)) ?T" by (rule map2_const_right [OF sT])
    also have "\<dots> = ?T" by simp
    finally have v: "map2 (map2 (+)) (map (map ((*) 1)) ?T) (map (map ((*) (1 - 1))) out) = ?T" .
    show "EGreedyWrapper_forward policy policy_out_keys mode U R w tdict
              = Inr (td_set (policy tdict) k (tensor_like R out))"
      using EGreedyWrapper_forward_uniform [where policy = policy and tdict = tdict and R = R,
          OF mode keys out bs c] v by simp
  }
qed

text \<open>
  The theorem at a batch of two actions, the identity policy, draws \<open>1/2\<close> and the
  sample \<open>9\<close>.
\<close>

theorem egreedy_forward_extremes_witness:
  "EGreedyWrapper_forward (\<lambda>d. d) [''action''] None (\<lambda>i. 1 / 2) (\<lambda>i j. 9)
       \<lparr>eps_init = 1, eps_end = 0, annealing_num_steps = 4, eps = 0\<rparr>
       \<lparr>batch_size = 2, entries = [''action'' \<mapsto> [[1, 2], [3, 4]]]\<rparr>
     = Inr \<lparr>batch_size = 2, entries = [''action'' \<mapsto> [[1, 2], [3, 4]]]\<rparr>
   \<and> EGreedyWrapper_forward (\<lambda>d. d) [''action''] None (\<lambda>i. 1 / 2) (\<lambda>i j. 9)
       \<lparr>eps_init = 1, eps_end = 0, annealing_num_steps = 4, eps = 1\<rparr>
       \<lparr>batch_size = 2, entries = [''action'' \<mapsto> [[1, 2], [3, 4]]]\<rparr>
     = Inr \<lparr>batch_size = 2, entries = [''action'' \<mapsto> [[9, 9], [9, 9]]]\<rparr>"
proof -
  let ?d = "\<lparr>batch_size = 2, entries = [''action'' \<mapsto> [[1, 2], [3, 4 :: real]]]\<rparr>"
  have T: "tensor_like (\<lambda>i j. 9) [[1, 2], [3, 4 :: real]] = [[9, 9], [9, 9]]"
    by (simp add: tensor_like_def enumerate_eq_zip upt_conv_Cons)
  note inst = egreedy_forward_extremes [where policy = "\<lambda>d. d" and mode = None
      and policy_out_keys = "[''action'']" and k = "''action''" and ks = "[]" and tdict = ?d
      and out = "[[1, 2], [3, 4]]" and U = "\<lambda>i. 1 / 2" and R = "\<lambda>i j. 9"]
  from inst [of "\<lparr>eps_init = 1, eps_end = 0, annealing_num_steps = 4, eps = 0\<rparr>"]
    inst [of "\<lparr>eps_init = 1, eps_end = 0, annealing_num_steps = 4, eps = 1\<rparr>"]
  show ?thesis by (simp add: T td_set_def)
qed

section \<open>Properties of the record recorder\<close>





end
